theory Spec2Isabelle
  imports Main
begin

section \<open>Python values, errors and the environment\<close>

type_synonym path = string
type_synonym handle = nat
type_synonym inode = nat

text \<open>
  The Python values that relay.py handles: strings, lists, \<open>None\<close> and file objects.
  A file object is a reference into the table of open files of the environment.
\<close>

datatype py = PNone | PStr string | PList "py list" | PFile handle

text \<open>
  Modelled from the spec: the peer addresses that \<open>transport.getPeer()\<close> reports
  (twisted.internet.address is not among the sources). A peer is a network address
  with a \<open>host\<close> and a port, or the address of a local inter-process channel,
  \<open>UNIXAddress\<close>, which carries the socket's name and has no \<open>host\<close>.
\<close>

datatype address =
    IPv4Address string nat
  | IPv6Address string nat
  | UNIXAddress string

record transport =
  getPeer :: address

record protocol =
  transport :: transport

text \<open>
  Modelled from the spec: the user descriptor (smtp.User is not among the sources), as
  relay.py reads it. \<open>orig\<close> and \<open>dest\<close> hold what \<open>str(user.orig)\<close> and
  \<open>str(user.dest)\<close> evaluate to, \<open>protocol\<close> is the protocol the message came
  in on.
\<close>

record user =
  orig :: string
  dest :: string
  protocol :: protocol

datatype error =
    SMTPBadRcpt user
  | IOError path
  | OSError path
  | IndexError
  | AttributeError
  | ValueError
  | UnpicklingError

text \<open>
  The environment. \<open>dir\<close> is the file-system name space (a path names an inode),
  \<open>content\<close> the bytes of each inode, \<open>handles\<close> the table of file objects,
  \<open>free_space\<close> the bytes the disk still takes (a write that needs more fails),
  \<open>log_events\<close> what \<open>log.msg\<close> has recorded and \<open>queue_n\<close> the queue's counter
  of allocated base keys. Removing a path leaves the inode to the handles that are open
  on it, as POSIX does.
\<close>

record file_obj =
  fname :: path
  ino :: inode
  fclosed :: bool
  writable :: bool

record world =
  dir :: "path \<rightharpoonup> inode"
  content :: "inode \<Rightarrow> string"
  next_inode :: inode
  handles :: "handle \<rightharpoonup> file_obj"
  next_handle :: handle
  free_space :: nat
  log_events :: "(string \<times> string) list"
  queue_n :: nat

text \<open>\<open>open(p)\<close>: open an existing file for reading; a missing path raises IOError.\<close>

definition builtin_open :: "path \<Rightarrow> world \<Rightarrow> (error + handle) \<times> world" where
  "builtin_open p w =
     (case dir w p of
        None \<Rightarrow> (Inl (IOError p), w)
      | Some i \<Rightarrow>
          (Inr (next_handle w),
           w\<lparr>handles := (handles w)(next_handle w \<mapsto>
                  \<lparr>fname = p, ino = i, fclosed = False, writable = False\<rparr>),
             next_handle := Suc (next_handle w)\<rparr>))"

text \<open>\<open>open(p, 'wb')\<close> on a path that does not exist yet: a new, empty file.\<close>

definition create_file :: "path \<Rightarrow> world \<Rightarrow> handle \<times> world" where
  "create_file p w =
     (next_handle w,
      w\<lparr>dir := (dir w)(p \<mapsto> next_inode w),
        content := (content w)(next_inode w := []),
        next_inode := Suc (next_inode w),
        handles := (handles w)(next_handle w \<mapsto>
             \<lparr>fname = p, ino = next_inode w, fclosed = False, writable = True\<rparr>),
        next_handle := Suc (next_handle w)\<rparr>)"

text \<open>\<open>fp.close()\<close>: closing is idempotent and does not fail.\<close>

definition file_close :: "handle \<Rightarrow> world \<Rightarrow> world" where
  "file_close h w =
     w\<lparr>handles := (handles w)(h := map_option (\<lambda>f. f\<lparr>fclosed := True\<rparr>) (handles w h))\<rparr>"

text \<open>
  \<open>fp.write(data)\<close>: ValueError on a closed file, IOError on a file not opened for
  writing or when the disk is full; otherwise the bytes are appended.
\<close>

definition file_write :: "handle \<Rightarrow> string \<Rightarrow> world \<Rightarrow> (error + unit) \<times> world" where
  "file_write h data w =
     (case handles w h of
        None \<Rightarrow> (Inl ValueError, w)
      | Some f \<Rightarrow>
          if fclosed f then (Inl ValueError, w)
          else if \<not> writable f then (Inl (IOError (fname f)), w)
          else if free_space w < length data then (Inl (IOError (fname f)), w)
          else (Inr (),
                w\<lparr>content := (content w)(ino f := content w (ino f) @ data),
                  free_space := free_space w - length data\<rparr>))"

text \<open>\<open>fp.read()\<close> of a freshly opened file: all its bytes.\<close>

definition file_read :: "handle \<Rightarrow> world \<Rightarrow> error + string" where
  "file_read h w =
     (case handles w h of
        None \<Rightarrow> Inl ValueError
      | Some f \<Rightarrow> if fclosed f then Inl ValueError else Inr (content w (ino f)))"

text \<open>\<open>os.remove(p)\<close>: a missing path raises OSError.\<close>

definition os_remove :: "path \<Rightarrow> world \<Rightarrow> (error + unit) \<times> world" where
  "os_remove p w =
     (case dir w p of
        None \<Rightarrow> (Inl (OSError p), w)
      | Some i \<Rightarrow> (Inr (), w\<lparr>dir := (dir w)(p := None)\<rparr>))"

text \<open>
  The pickle module is a parameter of the model: \<open>dumps\<close> serialises a value,
  \<open>loads\<close> parses bytes (\<open>None\<close> where unpickling raises).
\<close>

record pickle =
  dumps :: "py \<Rightarrow> string"
  loads :: "string \<Rightarrow> py option"

definition pickle_dump :: "pickle \<Rightarrow> py \<Rightarrow> handle \<Rightarrow> world \<Rightarrow> (error + unit) \<times> world" where
  "pickle_dump P v h w = file_write h (dumps P v) w"

definition pickle_load :: "pickle \<Rightarrow> handle \<Rightarrow> world \<Rightarrow> error + py" where
  "pickle_load P h w =
     (case file_read h w of
        Inl e \<Rightarrow> Inl e
      | Inr s \<Rightarrow> (case loads P s of None \<Rightarrow> Inl UnpicklingError | Some v \<Rightarrow> Inr v))"

text \<open>\<open>log.msg('Queueing mail %r -> %r' % (o, d))\<close>: the event is recorded.\<close>

definition log_msg :: "string \<Rightarrow> string \<Rightarrow> world \<Rightarrow> world" where
  "log_msg sender rcpt w = w\<lparr>log_events := log_events w @ [(sender, rcpt)]\<rparr>"

text \<open>Python list operations that raise.\<close>

definition py_index :: "'a list \<Rightarrow> nat \<Rightarrow> error + 'a" where
  "py_index xs i = (if i < length xs then Inr (xs ! i) else Inl IndexError)"

definition py_del0 :: "'a list \<Rightarrow> error + 'a list" where
  "py_del0 xs = (case xs of [] \<Rightarrow> Inl IndexError | x # rest \<Rightarrow> Inr rest)"

definition py_append :: "py \<Rightarrow> py \<Rightarrow> error + py list" where
  "py_append v x = (case v of PList xs \<Rightarrow> Inr (xs @ [x]) | _ \<Rightarrow> Inl AttributeError)"

text \<open>
  \<open>s.split(sep, maxsplit)\<close> for a one-character separator: at most \<open>maxsplit\<close>
  cuts, at the leftmost occurrences.
\<close>

fun str_split :: "char \<Rightarrow> nat \<Rightarrow> string \<Rightarrow> string list" where
  "str_split sep 0 s = [s]"
| "str_split sep (Suc n) s =
     (if sep \<in> set s
      then takeWhile (\<lambda>c. c \<noteq> sep) s # str_split sep n (tl (dropWhile (\<lambda>c. c \<noteq> sep) s))
      else [s])"

text \<open>\<open>filter(None, xs)\<close> on a list of strings keeps the non-empty ones.\<close>

definition filter_None :: "string list \<Rightarrow> string list" where
  "filter_None xs = filter (\<lambda>s. s \<noteq> []) xs"

section \<open>Relay rules\<close>

text \<open>\<open>peer.host\<close>: an attribute that \<open>UNIXAddress\<close> does not have.\<close>

fun host :: "address \<Rightarrow> error + string" where
  "host (IPv4Address h p) = Inr h"
| "host (IPv6Address h p) = Inr h"
| "host (UNIXAddress n) = Inl AttributeError"

fun isinstance_UNIXAddress :: "address \<Rightarrow> bool" where
  "isinstance_UNIXAddress (UNIXAddress n) = True"
| "isinstance_UNIXAddress _ = False"

text \<open>\<open>AbstractRelayRules.willRelay\<close>\<close>

definition AbstractRelayRules_willRelay :: "string \<Rightarrow> protocol \<Rightarrow> bool \<Rightarrow> error + bool" where
  "AbstractRelayRules_willRelay address proto authorized = Inr False"

text \<open>
  \<open>DomainQueuerRelayRules.willRelay\<close>. Python's \<open>or\<close> evaluates its right operand
  only when the left one is false, so \<open>peer.host\<close> is read last.
\<close>

definition DomainQueuerRelayRules_willRelay :: "string \<Rightarrow> protocol \<Rightarrow> bool \<Rightarrow> error + bool" where
  "DomainQueuerRelayRules_willRelay address proto authorized =
     (let peer = getPeer (transport proto) in
      if authorized then Inr True
      else if isinstance_UNIXAddress peer then Inr True
      else (case host peer of
              Inl e \<Rightarrow> Inl e
            | Inr h \<Rightarrow> Inr (h = ''127.0.0.1'')))"

text \<open>
  The rule objects a \<open>DomainQueuer\<close> can hold: the two classes of relay.py, and an
  object of another class with a \<open>willRelay\<close> of its own that returns a bool. Such
  an object carries its truth value (what \<open>bool(obj)\<close> gives); instances of the two
  classes of relay.py are true, as every object is that defines neither
  \<open>__nonzero__\<close> nor \<open>__len__\<close>.
\<close>

datatype relay_rules =
    AbstractRelayRules
  | DomainQueuerRelayRules
  | SubclassRelayRules bool "string \<Rightarrow> protocol \<Rightarrow> bool \<Rightarrow> bool"

fun truth :: "relay_rules \<Rightarrow> bool" where
  "truth AbstractRelayRules = True"
| "truth DomainQueuerRelayRules = True"
| "truth (SubclassRelayRules t f) = t"

fun rules_willRelay :: "relay_rules \<Rightarrow> string \<Rightarrow> protocol \<Rightarrow> bool \<Rightarrow> error + bool" where
  "rules_willRelay AbstractRelayRules a p authorized = AbstractRelayRules_willRelay a p authorized"
| "rules_willRelay DomainQueuerRelayRules a p authorized =
     DomainQueuerRelayRules_willRelay a p authorized"
| "rules_willRelay (SubclassRelayRules t f) a p authorized = Inr (f a p authorized)"

section \<open>The queue and the domain that queues\<close>

record queue =
  directory :: path

record service =
  queue :: queue

datatype sink = FileMessage handle

text \<open>The decimal numeral of the queue's counter, for the name of a base key.\<close>

definition digit :: "nat \<Rightarrow> char" where
  "digit d = char_of (d + 48)"

fun decimal :: "nat \<Rightarrow> string" where
  "decimal n = (if 10 \<le> n then decimal (n div 10) @ [digit (n mod 10)] else [digit n])"

definition base_key :: "queue \<Rightarrow> nat \<Rightarrow> path" where
  "base_key q n = directory q @ ''/'' @ decimal n"

text \<open>
  Modelled from the spec: \<open>Queue.createNewMessage\<close>, which relay.py calls and which
  is not among the sources. It allocates a new base key and two fresh artifacts, the
  header (\<open>-H\<close>) and the data (\<open>-D\<close>), and returns handles to both; a base key
  never collides with an existing one (a key whose artifact exists is refused with a
  storage error).
\<close>

definition createNewMessage :: "queue \<Rightarrow> world \<Rightarrow> (error + handle \<times> sink) \<times> world" where
  "createNewMessage q w =
     (let base = base_key q (queue_n w) in
      if dir w (base @ ''-H'') \<noteq> None then (Inl (IOError (base @ ''-H'')), w)
      else if dir w (base @ ''-D'') \<noteq> None then (Inl (IOError (base @ ''-D'')), w)
      else
        (case create_file (base @ ''-H'') w of (headerFile, w1) \<Rightarrow>
         case create_file (base @ ''-D'') w1 of (messageFile, w2) \<Rightarrow>
           (Inr (headerFile, FileMessage messageFile), w2\<lparr>queue_n := Suc (queue_n w2)\<rparr>)))"

record DomainQueuer =
  service :: service
  authed :: bool
  relayRules :: relay_rules

text \<open>
  \<open>DomainQueuer.__init__\<close>: \<open>if not self.relayRules\<close> puts the default rules in
  the place of \<open>None\<close> and of every rules object that is false.
\<close>

definition DomainQueuer_init :: "service \<Rightarrow> bool \<Rightarrow> relay_rules option \<Rightarrow> DomainQueuer" where
  "DomainQueuer_init svc authenticated rules =
     \<lparr>service = svc, authed = authenticated,
      relayRules =
        (case rules of
           None \<Rightarrow> DomainQueuerRelayRules
         | Some r \<Rightarrow> if \<not> truth r then DomainQueuerRelayRules else r)\<rparr>"

text \<open>\<open>DomainQueuer.willRelay\<close>\<close>

definition willRelay :: "DomainQueuer \<Rightarrow> string \<Rightarrow> protocol \<Rightarrow> error + bool" where
  "willRelay self address proto = rules_willRelay (relayRules self) address proto (authed self)"

text \<open>
  \<open>DomainQueuer.startMessage\<close>. The \<open>try ... finally\<close> closes the envelope file
  whether or not \<open>pickle.dump\<close> raised.
\<close>

definition startMessage :: "pickle \<Rightarrow> DomainQueuer \<Rightarrow> user \<Rightarrow> world \<Rightarrow> (error + sink) \<times> world" where
  "startMessage P self u w =
     (case createNewMessage (queue (service self)) w of
        (Inl e, w1) \<Rightarrow> (Inl e, w1)
      | (Inr (envelopeFile, smtpMessage), w1) \<Rightarrow>
          (case pickle_dump P (PList [PStr (orig u), PStr (dest u)]) envelopeFile
                  (log_msg (orig u) (dest u) w1) of
             (Inl e, w2) \<Rightarrow> (Inl e, file_close envelopeFile w2)
           | (Inr _, w2) \<Rightarrow> (Inr smtpMessage, file_close envelopeFile w2)))"

text \<open>
  \<open>DomainQueuer.exists\<close>. The value returned is the closure
  \<open>lambda: self.startMessage(user)\<close>; the environment is not touched.
\<close>

definition exists :: "pickle \<Rightarrow> DomainQueuer \<Rightarrow> user \<Rightarrow> world \<Rightarrow>
    (error + (world \<Rightarrow> (error + sink) \<times> world)) \<times> world" where
  "exists P self u w =
     (case willRelay self (dest u) (protocol u) of
        Inl e \<Rightarrow> (Inl e, w)
      | Inr ok \<Rightarrow>
          if ok then
            (let orig' = filter_None (str_split CHR ''@'' 1 (orig u));
                 dest' = filter_None (str_split CHR ''@'' 1 (dest u)) in
             if length orig' = 2 \<and> length dest' = 2
             then (Inr (startMessage P self u), w)
             else (Inl (SMTPBadRcpt u), w))
          else (Inl (SMTPBadRcpt u), w))"

section \<open>The relayer\<close>

record agent =
  messages :: "py list list"
  names :: "path list"

text \<open>\<open>RelayerMixin.loadMessages\<close>: the loop over the paths, then the method.\<close>

fun loadMessages_loop :: "pickle \<Rightarrow> path list \<Rightarrow> agent \<Rightarrow> world \<Rightarrow> (error + unit) \<times> agent \<times> world" where
  "loadMessages_loop P [] self w = (Inr (), self, w)"
| "loadMessages_loop P (message # rest) self w =
     (case builtin_open (message @ ''-H'') w of
        (Inl e, w1) \<Rightarrow> (Inl e, self, w1)
      | (Inr fp, w1) \<Rightarrow>
          (case pickle_load P fp w1 of
             Inl e \<Rightarrow> (Inl e, self, file_close fp w1)
           | Inr messageContents \<Rightarrow>
               (case builtin_open (message @ ''-D'') (file_close fp w1) of
                  (Inl e, w2) \<Rightarrow> (Inl e, self, w2)
                | (Inr fp', w2) \<Rightarrow>
                    (case py_append messageContents (PFile fp') of
                       Inl e \<Rightarrow> (Inl e, self, w2)
                     | Inr item \<Rightarrow>
                         loadMessages_loop P rest
                           (self\<lparr>messages := messages self @ [item],
                                 names := names self @ [message]\<rparr>) w2))))"

definition loadMessages :: "pickle \<Rightarrow> path list \<Rightarrow> agent \<Rightarrow> world \<Rightarrow> (error + unit) \<times> agent \<times> world" where
  "loadMessages P messagePaths self w =
     loadMessages_loop P messagePaths (self\<lparr>messages := [], names := []\<rparr>) w"

text \<open>\<open>getMailFrom\<close>, \<open>getMailTo\<close>, \<open>getMailData\<close>: \<open>None\<close> on an empty batch.\<close>

definition getMailFrom :: "agent \<Rightarrow> error + py" where
  "getMailFrom self =
     (if messages self = [] then Inr PNone
      else case py_index (messages self) 0 of
             Inl e \<Rightarrow> Inl e
           | Inr m \<Rightarrow> py_index m 0)"

definition getMailTo :: "agent \<Rightarrow> error + py" where
  "getMailTo self =
     (if messages self = [] then Inr PNone
      else case py_index (messages self) 0 of
             Inl e \<Rightarrow> Inl e
           | Inr m \<Rightarrow> (case py_index m 1 of Inl e \<Rightarrow> Inl e | Inr r \<Rightarrow> Inr (PList [r])))"

definition getMailData :: "agent \<Rightarrow> error + py" where
  "getMailData self =
     (if messages self = [] then Inr PNone
      else case py_index (messages self) 0 of
             Inl e \<Rightarrow> Inl e
           | Inr m \<Rightarrow> py_index m 2)"

text \<open>
  \<open>RelayerMixin.sentMail\<close>. \<open>SUCCESS\<close> is \<open>smtp.SUCCESS\<close>, a constant of the
  smtp module, taken as a parameter. First the removals of the \<open>if\<close>, then the two
  \<open>del\<close> statements; an exception leaves the statements after it undone.
\<close>

definition remove_artifacts :: "agent \<Rightarrow> world \<Rightarrow> (error + unit) \<times> world" where
  "remove_artifacts self w =
     (case py_index (names self) 0 of
        Inl e \<Rightarrow> (Inl e, w)
      | Inr n \<Rightarrow>
          (case os_remove (n @ ''-D'') w of
             (Inl e, w1) \<Rightarrow> (Inl e, w1)
           | (Inr _, w1) \<Rightarrow>
               (case py_index (names self) 0 of
                  Inl e \<Rightarrow> (Inl e, w1)
                | Inr n' \<Rightarrow> os_remove (n' @ ''-H'') w1)))"

definition sentMail :: "int set \<Rightarrow> int \<Rightarrow> string \<Rightarrow> nat \<Rightarrow> string list \<Rightarrow> 'l \<Rightarrow> agent \<Rightarrow> world \<Rightarrow>
    (error + unit) \<times> agent \<times> world" where
  "sentMail SUCCESS code resp numOk addresses log self w =
     (case (if code \<in> SUCCESS then remove_artifacts self w else (Inr (), w)) of
        (Inl e, w1) \<Rightarrow> (Inl e, self, w1)
      | (Inr _, w1) \<Rightarrow>
          (case py_del0 (messages self) of
             Inl e \<Rightarrow> (Inl e, self, w1)
           | Inr ms \<Rightarrow>
               (case py_del0 (names self) of
                  Inl e \<Rightarrow> (Inl e, self\<lparr>messages := ms\<rparr>, w1)
                | Inr ns \<Rightarrow> (Inr (), self\<lparr>messages := ms, names := ns\<rparr>, w1))))"


section \<open>Properties stated by the specification, and concrete instances\<close>

text \<open>
  An address splits into two parts when it reads \<open>a@b\<close> with \<open>a\<close> and \<open>b\<close>
  non-empty and no \<open>@\<close> in \<open>a\<close> (the cut is at the first \<open>@\<close>).
\<close>

definition splits_in_two :: "string \<Rightarrow> bool" where
  "splits_in_two s = (\<exists>a b. a \<noteq> [] \<and> b \<noteq> [] \<and> CHR ''@'' \<notin> set a \<and> s = a @ CHR ''@'' # b)"

definition is_open :: "world \<Rightarrow> handle \<Rightarrow> bool" where
  "is_open w h = (case handles w h of None \<Rightarrow> False | Some f \<Rightarrow> \<not> fclosed f)"

definition is_closed :: "world \<Rightarrow> handle \<Rightarrow> bool" where
  "is_closed w h = (case handles w h of None \<Rightarrow> False | Some f \<Rightarrow> fclosed f)"

text \<open>
  An item belongs to a base key when it is what \<open>loadMessages\<close> makes of that key:
  the list unpickled from the header artifact of the key, read through a file object
  that is closed again, followed by the file object opened, right after it, on the data
  artifact of the key. The batch is aligned when every item belongs to the base key at
  the same index; so \<open>messages\<close> and \<open>names\<close> are equally long.
\<close>

definition item_key_ok :: "pickle \<Rightarrow> world \<Rightarrow> py list \<Rightarrow> path \<Rightarrow> bool" where
  "item_key_ok P w m n =
     (m \<noteq> [] \<and>
      (case last m of
         PFile fp \<Rightarrow>
           0 < fp \<and> fp < next_handle w \<and>
           (case handles w fp of None \<Rightarrow> False | Some d \<Rightarrow> fname d = n @ ''-D'') \<and>
           (case handles w (fp - 1) of
              None \<Rightarrow> False
            | Some h \<Rightarrow>
                fname h = n @ ''-H'' \<and> fclosed h \<and>
                loads P (content w (ino h)) = Some (PList (butlast m)))
       | _ \<Rightarrow> False))"

definition aligned :: "pickle \<Rightarrow> world \<Rightarrow> agent \<Rightarrow> bool" where
  "aligned P w self = list_all2 (item_key_ok P w) (messages self) (names self)"

text \<open>
  A base key can be loaded when its header artifact exists and unpickles to a list, and
  its data artifact exists.
\<close>

definition loadable :: "pickle \<Rightarrow> world \<Rightarrow> path \<Rightarrow> bool" where
  "loadable P w n =
     (case dir w (n @ ''-H'') of
        None \<Rightarrow> False
      | Some i \<Rightarrow>
          (case loads P (content w i) of
             Some (PList xs) \<Rightarrow> dir w (n @ ''-D'') \<noteq> None
           | _ \<Rightarrow> False))"

text \<open>
  What one round of the loop of \<open>loadMessages\<close> leaves of the environment: the name
  space and the files as they were, and the file objects allocated so far on their
  files, the closed ones closed.
\<close>

definition frame :: "world \<Rightarrow> world \<Rightarrow> bool" where
  "frame w w' =
     (dir w' = dir w \<and> content w' = content w \<and> next_handle w \<le> next_handle w' \<and>
      (\<forall>h f. h < next_handle w \<longrightarrow> handles w h = Some f \<longrightarrow>
             (\<exists>f'. handles w' h = Some f' \<and> fname f' = fname f \<and> ino f' = ino f \<and>
                   (fclosed f \<longrightarrow> fclosed f'))))"

text \<open>
  A pickle for the concrete instances: the two strings of a pair, separated by a line
  feed.
\<close>

fun line_dumps :: "py \<Rightarrow> string" where
  "line_dumps (PList [PStr a, PStr b]) = a @ CHR 0x0A # b"
| "line_dumps v = []"

definition line_loads :: "string \<Rightarrow> py option" where
  "line_loads s =
     (case str_split (CHR 0x0A) 1 s of
        [a, b] \<Rightarrow> Some (PList [PStr a, PStr b])
      | _ \<Rightarrow> None)"

definition line_pickle :: pickle where
  "line_pickle = \<lparr>dumps = line_dumps, loads = line_loads\<rparr>"

text \<open>For the concrete instances: the positive completion replies of SMTP, 200 to 299.\<close>

definition smtp_SUCCESS :: "int set" where
  "smtp_SUCCESS = {200..299}"

definition example_world :: "nat \<Rightarrow> world" where
  "example_world space =
     \<lparr>dir = Map.empty, content = (\<lambda>i. []), next_inode = 0, handles = Map.empty,
      next_handle = 0, free_space = space, log_events = [], queue_n = 0\<rparr>"

definition stored_world :: world where
  "stored_world =
     \<lparr>dir = [''q/0-H'' \<mapsto> 0, ''q/0-D'' \<mapsto> 1],
      content = (\<lambda>i. [])(0 := line_dumps (PList [PStr ''a@x'', PStr ''b@y''])),
      next_inode = 2,
      handles = [0 \<mapsto> \<lparr>fname = ''q/0-H'', ino = 0, fclosed = True, writable = False\<rparr>,
                 1 \<mapsto> \<lparr>fname = ''q/0-D'', ino = 1, fclosed = False, writable = False\<rparr>],
      next_handle = 2, free_space = 100, log_events = [], queue_n = 1\<rparr>"

definition example_agent :: agent where
  "example_agent = \<lparr>messages = [[PStr ''a@x'', PStr ''b@y'', PFile 1]], names = [''q/0'']\<rparr>"

definition example_user :: "address \<Rightarrow> user" where
  "example_user peer =
     \<lparr>orig = ''a@x'', dest = ''b@y'', protocol = \<lparr>transport = \<lparr>getPeer = peer\<rparr>\<rparr>\<rparr>"

definition example_queuer :: DomainQueuer where
  "example_queuer = DomainQueuer_init \<lparr>queue = \<lparr>directory = ''q''\<rparr>\<rparr> False None"

subsection \<open>Relay rules\<close>

lemma DomainQueuerRelayRules_willRelay_value:
  "DomainQueuerRelayRules_willRelay a p authorized =
     Inr (authorized \<or> isinstance_UNIXAddress (getPeer (transport p)) \<or>
          host (getPeer (transport p)) = Inr ''127.0.0.1'')"
  by (cases "getPeer (transport p)") (simp_all add: DomainQueuerRelayRules_willRelay_def Let_def)

lemma willRelay_total: "\<exists>b. willRelay self a p = Inr b"
  by (cases "relayRules self")
     (auto simp add: willRelay_def AbstractRelayRules_willRelay_def
        DomainQueuerRelayRules_willRelay_value)

text \<open>
  C1. The default rules relay exactly when the originator is authenticated, or the peer
  is a UNIX-socket address, or the peer's host is 127.0.0.1; the call never raises.
  So they relay for every authenticated originator, and never for an unauthenticated
  peer that is neither local nor the loopback host.
\<close>

theorem default_rules_relay_iff:
  "DomainQueuerRelayRules_willRelay a p authorized =
     Inr (authorized \<or> isinstance_UNIXAddress (getPeer (transport p)) \<or>
          host (getPeer (transport p)) = Inr ''127.0.0.1'')
   \<and> DomainQueuerRelayRules_willRelay a p True = Inr True
   \<and> (\<not> isinstance_UNIXAddress (getPeer (transport p)) \<and>
        host (getPeer (transport p)) \<noteq> Inr ''127.0.0.1'' \<longrightarrow>
        DomainQueuerRelayRules_willRelay a p False = Inr False)"
  by (simp add: DomainQueuerRelayRules_willRelay_value)

theorem default_rules_relay_iff_witness:
  "DomainQueuerRelayRules_willRelay ''b@y''
       \<lparr>transport = \<lparr>getPeer = IPv4Address ''10.0.0.1'' 25\<rparr>\<rparr> False = Inr False
   \<and> DomainQueuerRelayRules_willRelay ''b@y''
       \<lparr>transport = \<lparr>getPeer = IPv4Address ''10.0.0.1'' 25\<rparr>\<rparr> True = Inr True"
  using default_rules_relay_iff [of "''b@y''" "\<lparr>transport = \<lparr>getPeer = IPv4Address ''10.0.0.1'' 25\<rparr>\<rparr>" False]
  by simp

subsection \<open>Acceptance\<close>

lemma str_split_decompose:
  "c \<in> set s \<Longrightarrow> s = takeWhile (\<lambda>x. x \<noteq> c) s @ c # tl (dropWhile (\<lambda>x. x \<noteq> c) s)"
  by (induction s) auto

lemma takeWhile_until: "c \<notin> set a \<Longrightarrow> takeWhile (\<lambda>x. x \<noteq> c) (a @ c # b) = a"
  by (induction a) auto

lemma dropWhile_until: "c \<notin> set a \<Longrightarrow> dropWhile (\<lambda>x. x \<noteq> c) (a @ c # b) = c # b"
  by (induction a) auto

lemma two_parts_iff:
  "(length (filter_None (str_split CHR ''@'' 1 s)) = 2) = splits_in_two s"
proof
  assume L: "length (filter_None (str_split CHR ''@'' 1 s)) = 2"
  let ?a = "takeWhile (\<lambda>x. x \<noteq> CHR ''@'') s"
  let ?b = "tl (dropWhile (\<lambda>x. x \<noteq> CHR ''@'') s)"
  from L have mem: "CHR ''@'' \<in> set s"
    by (auto simp: filter_None_def split: if_splits)
  with L have ne: "?a \<noteq> [] \<and> ?b \<noteq> []"
    by (auto simp: filter_None_def split: if_splits)
  have nin: "CHR ''@'' \<notin> set ?a"
    by (auto dest: set_takeWhileD)
  from mem have "s = ?a @ CHR ''@'' # ?b"
    by (rule str_split_decompose)
  with ne nin show "splits_in_two s"
    unfolding splits_in_two_def by blast
next
  assume "splits_in_two s"
  then obtain a b where ab: "a \<noteq> []" "b \<noteq> []" "CHR ''@'' \<notin> set a" "s = a @ CHR ''@'' # b"
    unfolding splits_in_two_def by blast
  then show "length (filter_None (str_split CHR ''@'' 1 s)) = 2"
    by (simp add: filter_None_def takeWhile_until dropWhile_until)
qed

lemma exists_value:
  "exists P self u w =
     (if willRelay self (dest u) (protocol u) = Inr True \<and>
         splits_in_two (orig u) \<and> splits_in_two (dest u)
      then (Inr (startMessage P self u), w)
      else (Inl (SMTPBadRcpt u), w))"
proof -
  obtain b where b: "willRelay self (dest u) (protocol u) = Inr b"
    using willRelay_total by blast
  show ?thesis
    unfolding exists_def Let_def two_parts_iff b by (cases b) simp_all
qed

lemma base_key_artifacts_differ [simp]: "k @ ''-H'' \<noteq> k @ ''-D''"
  by simp

lemma startMessage_success:
  assumes "dir w (base_key (queue (service self)) (queue_n w) @ ''-H'') = None"
      and "dir w (base_key (queue (service self)) (queue_n w) @ ''-D'') = None"
      and "length (dumps P (PList [PStr (orig u), PStr (dest u)])) \<le> free_space w"
  shows "fst (startMessage P self u w) = Inr (FileMessage (Suc (next_handle w)))"
    and "dir (snd (startMessage P self u w)) =
           (dir w)(base_key (queue (service self)) (queue_n w) @ ''-H'' \<mapsto> next_inode w,
                   base_key (queue (service self)) (queue_n w) @ ''-D'' \<mapsto> Suc (next_inode w))"
    and "content (snd (startMessage P self u w)) (next_inode w) =
           dumps P (PList [PStr (orig u), PStr (dest u)])"
    and "handles (snd (startMessage P self u w)) =
           (handles w)
             (next_handle w \<mapsto> \<lparr>fname = base_key (queue (service self)) (queue_n w) @ ''-H'',
                  ino = next_inode w, fclosed = True, writable = True\<rparr>,
              Suc (next_handle w) \<mapsto> \<lparr>fname = base_key (queue (service self)) (queue_n w) @ ''-D'',
                  ino = Suc (next_inode w), fclosed = False, writable = True\<rparr>)"
    and "next_handle (snd (startMessage P self u w)) = Suc (Suc (next_handle w))"
    and "queue_n (snd (startMessage P self u w)) = Suc (queue_n w)"
    and "log_events (snd (startMessage P self u w)) = log_events w @ [(orig u, dest u)]"
  using assms
  by (auto simp add: startMessage_def createNewMessage_def create_file_def pickle_dump_def
        file_write_def log_msg_def file_close_def Let_def fun_upd_twist)

lemma startMessage_Inr_D:
  assumes "startMessage P self u w = (Inr s, w')"
  shows "dir w (base_key (queue (service self)) (queue_n w) @ ''-H'') = None
       \<and> dir w (base_key (queue (service self)) (queue_n w) @ ''-D'') = None
       \<and> length (dumps P (PList [PStr (orig u), PStr (dest u)])) \<le> free_space w"
  using assms
  by (auto simp add: startMessage_def createNewMessage_def create_file_def pickle_dump_def
        file_write_def log_msg_def file_close_def Let_def split: if_splits)

text \<open>
  C2. \<open>exists\<close> raises SMTPBadRcpt exactly when the relay rules deny the request or
  the sender or the recipient does not split into two non-empty parts at its first
  \<open>@\<close>; it raises nothing else, and whatever it does the environment (artifacts and
  queue state) is as before. Otherwise it returns the factory
  \<open>lambda: self.startMessage(user)\<close>, which, invoked where the next base key is
  free and the disk takes the header, creates both artifacts of a new item, advances
  the queue and returns the body sink.
\<close>

theorem exists_rejects_iff:
  "((fst (exists P self u w) = Inl (SMTPBadRcpt u)) =
      (willRelay self (dest u) (protocol u) = Inr False \<or>
       \<not> splits_in_two (orig u) \<or> \<not> splits_in_two (dest u)))
   \<and> (fst (exists P self u w) \<noteq> Inl (SMTPBadRcpt u) \<longrightarrow>
        fst (exists P self u w) = Inr (startMessage P self u))
   \<and> snd (exists P self u w) = w
   \<and> (dir w (base_key (queue (service self)) (queue_n w) @ ''-H'') = None \<and>
      dir w (base_key (queue (service self)) (queue_n w) @ ''-D'') = None \<and>
      length (dumps P (PList [PStr (orig u), PStr (dest u)])) \<le> free_space w \<longrightarrow>
        fst (startMessage P self u w) = Inr (FileMessage (Suc (next_handle w))) \<and>
        dir (snd (startMessage P self u w))
          (base_key (queue (service self)) (queue_n w) @ ''-H'') \<noteq> None \<and>
        dir (snd (startMessage P self u w))
          (base_key (queue (service self)) (queue_n w) @ ''-D'') \<noteq> None \<and>
        queue_n (snd (startMessage P self u w)) = Suc (queue_n w) \<and>
        is_open (snd (startMessage P self u w)) (Suc (next_handle w)))"
proof -
  obtain b where b: "willRelay self (dest u) (protocol u) = Inr b"
    using willRelay_total by blast
  have 1: "(fst (exists P self u w) = Inl (SMTPBadRcpt u)) =
      (willRelay self (dest u) (protocol u) = Inr False \<or>
       \<not> splits_in_two (orig u) \<or> \<not> splits_in_two (dest u))"
    by (auto simp add: exists_value b)
  have 2: "fst (exists P self u w) \<noteq> Inl (SMTPBadRcpt u) \<longrightarrow>
        fst (exists P self u w) = Inr (startMessage P self u)"
    by (simp add: exists_value)
  have 3: "snd (exists P self u w) = w"
    by (simp add: exists_value)
  have 4: "dir w (base_key (queue (service self)) (queue_n w) @ ''-H'') = None \<and>
      dir w (base_key (queue (service self)) (queue_n w) @ ''-D'') = None \<and>
      length (dumps P (PList [PStr (orig u), PStr (dest u)])) \<le> free_space w \<longrightarrow>
        fst (startMessage P self u w) = Inr (FileMessage (Suc (next_handle w))) \<and>
        dir (snd (startMessage P self u w))
          (base_key (queue (service self)) (queue_n w) @ ''-H'') \<noteq> None \<and>
        dir (snd (startMessage P self u w))
          (base_key (queue (service self)) (queue_n w) @ ''-D'') \<noteq> None \<and>
        queue_n (snd (startMessage P self u w)) = Suc (queue_n w) \<and>
        is_open (snd (startMessage P self u w)) (Suc (next_handle w))"
    by (simp add: startMessage_success is_open_def)
  from 1 2 3 4 show ?thesis by simp
qed

lemma example_addresses_split: "splits_in_two ''a@x'' \<and> splits_in_two ''b@y'' \<and> \<not> splits_in_two ''root''"
  by (simp add: two_parts_iff [symmetric] filter_None_def)

theorem exists_rejects_iff_witness:
  "fst (exists line_pickle example_queuer (example_user (IPv4Address ''127.0.0.1'' 1025))
          (example_world 100))
     = Inr (startMessage line_pickle example_queuer (example_user (IPv4Address ''127.0.0.1'' 1025)))
   \<and> fst (exists line_pickle example_queuer (example_user (IPv4Address ''10.0.0.1'' 1025))
          (example_world 100))
     = Inl (SMTPBadRcpt (example_user (IPv4Address ''10.0.0.1'' 1025)))
   \<and> fst (startMessage line_pickle example_queuer (example_user (IPv4Address ''127.0.0.1'' 1025))
            (example_world 100)) = Inr (FileMessage 1)
   \<and> queue_n (snd (startMessage line_pickle example_queuer
            (example_user (IPv4Address ''127.0.0.1'' 1025)) (example_world 100))) = 1"
  using exists_rejects_iff [of line_pickle example_queuer
          "example_user (IPv4Address ''127.0.0.1'' 1025)" "example_world 100"]
        exists_rejects_iff [of line_pickle example_queuer
          "example_user (IPv4Address ''10.0.0.1'' 1025)" "example_world 100"]
        example_addresses_split
  by (auto simp add: example_user_def example_queuer_def example_world_def DomainQueuer_init_def
        willRelay_def DomainQueuerRelayRules_willRelay_value line_pickle_def)

subsection \<open>The delivery agent\<close>

lemma sentMail_failure_code:
  "code \<notin> SUCCESS \<Longrightarrow> messages self = m # ms \<Longrightarrow> names self = n # ns \<Longrightarrow>
     sentMail SUCCESS code resp numOk addresses log self w =
       (Inr (), self\<lparr>messages := ms, names := ns\<rparr>, w)"
  by (simp add: sentMail_def py_del0_def)

lemma remove_artifacts_value:
  "names self = n # ns \<Longrightarrow>
     remove_artifacts self w =
       (if dir w (n @ ''-D'') = None then (Inl (OSError (n @ ''-D'')), w)
        else if dir w (n @ ''-H'') = None
          then (Inl (OSError (n @ ''-H'')), w\<lparr>dir := (dir w)(n @ ''-D'' := None)\<rparr>)
          else (Inr (), w\<lparr>dir := (dir w)(n @ ''-D'' := None, n @ ''-H'' := None)\<rparr>))"
  by (auto simp add: remove_artifacts_def py_index_def os_remove_def split: option.splits)

lemma sentMail_success_code:
  "code \<in> SUCCESS \<Longrightarrow> messages self = m # ms \<Longrightarrow> names self = n # ns \<Longrightarrow>
     sentMail SUCCESS code resp numOk addresses log self w =
       (if dir w (n @ ''-D'') = None then (Inl (OSError (n @ ''-D'')), self, w)
        else if dir w (n @ ''-H'') = None
          then (Inl (OSError (n @ ''-H'')), self, w\<lparr>dir := (dir w)(n @ ''-D'' := None)\<rparr>)
          else (Inr (), self\<lparr>messages := ms, names := ns\<rparr>,
                w\<lparr>dir := (dir w)(n @ ''-D'' := None, n @ ''-H'' := None)\<rparr>))"
  by (simp add: sentMail_def remove_artifacts_value py_del0_def)

text \<open>
  C3. On a non-empty batch and a success code, \<open>sentMail\<close> returns exactly when both
  artifacts of the front item exist, and when it returns both are gone, and no other
  path has been touched.
\<close>

theorem sentMail_success_removes_both:
  assumes "code \<in> SUCCESS"
      and "messages self = m # ms"
      and "names self = n # ns"
      and "sentMail SUCCESS code resp numOk addresses log self w = (r, self', w')"
  shows "(r = Inr ()) = (dir w (n @ ''-D'') \<noteq> None \<and> dir w (n @ ''-H'') \<noteq> None)
       \<and> (r = Inr () \<longrightarrow>
            dir w' (n @ ''-D'') = None \<and> dir w' (n @ ''-H'') = None \<and>
            (\<forall>p. p \<noteq> n @ ''-D'' \<and> p \<noteq> n @ ''-H'' \<longrightarrow> dir w' p = dir w p))"
  using assms(4) unfolding sentMail_success_code [OF assms(1,2,3)]
  by (auto split: if_splits)

theorem sentMail_success_removes_both_witness:
  "fst (sentMail smtp_SUCCESS 250 ''OK'' 1 [''b@y''] () example_agent stored_world) = Inr ()
   \<and> dir (snd (snd (sentMail smtp_SUCCESS 250 ''OK'' 1 [''b@y''] () example_agent stored_world)))
        ''q/0-D'' = None
   \<and> dir (snd (snd (sentMail smtp_SUCCESS 250 ''OK'' 1 [''b@y''] () example_agent stored_world)))
        ''q/0-H'' = None"
proof -
  let ?X = "sentMail smtp_SUCCESS 250 ''OK'' 1 [''b@y''] () example_agent stored_world"
  have c: "(250::int) \<in> smtp_SUCCESS" by (simp add: smtp_SUCCESS_def)
  have m: "messages example_agent = [PStr ''a@x'', PStr ''b@y'', PFile 1] # []"
    by (simp add: example_agent_def)
  have n: "names example_agent = ''q/0'' # []" by (simp add: example_agent_def)
  have x: "?X = (fst ?X, fst (snd ?X), snd (snd ?X))" by simp
  have d: "dir stored_world (''q/0'' @ ''-D'') \<noteq> None \<and> dir stored_world (''q/0'' @ ''-H'') \<noteq> None"
    by (simp add: stored_world_def)
  from sentMail_success_removes_both [OF c m n x] d show ?thesis by simp
qed

text \<open>
  C4, as the code has it. On a non-empty batch, a call with a code that is not a success
  code returns, has removed the front element of \<open>messages\<close> and of \<open>names\<close>
  and nothing else, and leaves the environment as it was (no artifact is removed). A
  call with a success code returns when both artifacts of the front item exist, and
  then has removed the front element of both collections and the two artifacts. A
  call with a success code raises OSError for the artifact that is missing (the data
  artifact first), and then leaves the batch as it was. So every call that returns
  has removed exactly the front item.
\<close>

theorem sentMail_advances_or_raises:
  assumes "messages self = m # ms"
      and "names self = n # ns"
  shows "(code \<notin> SUCCESS \<longrightarrow>
            sentMail SUCCESS code resp numOk addresses log self w =
              (Inr (), self\<lparr>messages := ms, names := ns\<rparr>, w))
       \<and> (code \<in> SUCCESS \<and> dir w (n @ ''-D'') \<noteq> None \<and> dir w (n @ ''-H'') \<noteq> None \<longrightarrow>
            sentMail SUCCESS code resp numOk addresses log self w =
              (Inr (), self\<lparr>messages := ms, names := ns\<rparr>,
               w\<lparr>dir := (dir w)(n @ ''-D'' := None, n @ ''-H'' := None)\<rparr>))
       \<and> (code \<in> SUCCESS \<and> dir w (n @ ''-D'') = None \<longrightarrow>
            sentMail SUCCESS code resp numOk addresses log self w =
              (Inl (OSError (n @ ''-D'')), self, w))
       \<and> (code \<in> SUCCESS \<and> dir w (n @ ''-D'') \<noteq> None \<and> dir w (n @ ''-H'') = None \<longrightarrow>
            fst (sentMail SUCCESS code resp numOk addresses log self w) =
              Inl (OSError (n @ ''-H'')) \<and>
            fst (snd (sentMail SUCCESS code resp numOk addresses log self w)) = self)
       \<and> (fst (sentMail SUCCESS code resp numOk addresses log self w) = Inr () \<longrightarrow>
            messages (fst (snd (sentMail SUCCESS code resp numOk addresses log self w))) = ms \<and>
            names (fst (snd (sentMail SUCCESS code resp numOk addresses log self w))) = ns)"
proof (cases "code \<in> SUCCESS")
  case True
  show ?thesis
    using True by (simp add: sentMail_success_code [OF True assms])
next
  case False
  show ?thesis
    using False by (simp add: sentMail_failure_code [OF False assms])
qed

theorem sentMail_advances_or_raises_witness:
  "sentMail smtp_SUCCESS 550 ''no such user'' 0 [] () example_agent stored_world
     = (Inr (), \<lparr>messages = [], names = []\<rparr>, stored_world)
   \<and> fst (sentMail smtp_SUCCESS 250 ''OK'' 1 [''b@y''] () example_agent stored_world) = Inr ()
   \<and> fst (snd (sentMail smtp_SUCCESS 250 ''OK'' 1 [''b@y''] () example_agent stored_world))
       = \<lparr>messages = [], names = []\<rparr>
   \<and> sentMail smtp_SUCCESS 250 ''OK'' 1 [''b@y''] () example_agent (example_world 100)
     = (Inl (OSError ''q/0-D''), example_agent, example_world 100)"
proof -
  have m: "messages example_agent = [PStr ''a@x'', PStr ''b@y'', PFile 1] # []"
    by (simp add: example_agent_def)
  have n: "names example_agent = ''q/0'' # []" by (simp add: example_agent_def)
  note T = sentMail_advances_or_raises [OF m n]
  have c: "(550::int) \<notin> smtp_SUCCESS" "(250::int) \<in> smtp_SUCCESS"
    by (simp_all add: smtp_SUCCESS_def)
  from T [where code = 550 and SUCCESS = smtp_SUCCESS and resp = "''no such user''"
      and numOk = 0 and addresses = "[]" and log = "()" and w = stored_world] c
  have 1: "sentMail smtp_SUCCESS 550 ''no such user'' 0 [] () example_agent stored_world
     = (Inr (), \<lparr>messages = [], names = []\<rparr>, stored_world)"
    by (simp add: example_agent_def)
  from T [where code = 250 and SUCCESS = smtp_SUCCESS and resp = "''OK''"
      and numOk = 1 and addresses = "[''b@y'']" and log = "()" and w = stored_world] c
  have 2: "fst (sentMail smtp_SUCCESS 250 ''OK'' 1 [''b@y''] () example_agent stored_world) = Inr ()
    \<and> fst (snd (sentMail smtp_SUCCESS 250 ''OK'' 1 [''b@y''] () example_agent stored_world))
       = \<lparr>messages = [], names = []\<rparr>"
    by (simp add: example_agent_def stored_world_def)
  from T [where code = 250 and SUCCESS = smtp_SUCCESS and resp = "''OK''"
      and numOk = 1 and addresses = "[''b@y'']" and log = "()" and w = "example_world 100"] c
  have 3: "sentMail smtp_SUCCESS 250 ''OK'' 1 [''b@y''] () example_agent (example_world 100)
     = (Inl (OSError ''q/0-D''), example_agent, example_world 100)"
    by (simp add: example_world_def)
  from 1 2 3 show ?thesis by simp
qed

text \<open>
  C4 as stated fails where an artifact of the front item is missing, as it is
  for an agent that still holds an item which another delivery has removed from the
  disk: the call with a success code raises OSError, and the front item stays in the
  batch.
\<close>

theorem sentMail_front_kept_counterexample:
  "fst (sentMail smtp_SUCCESS 250 ''OK'' 1 [''b@y''] () example_agent
         (snd (snd (sentMail smtp_SUCCESS 250 ''OK'' 1 [''b@y''] () example_agent stored_world))))
     = Inl (OSError ''q/0-D'')
   \<and> messages (fst (snd (sentMail smtp_SUCCESS 250 ''OK'' 1 [''b@y''] () example_agent
         (snd (snd (sentMail smtp_SUCCESS 250 ''OK'' 1 [''b@y''] () example_agent stored_world))))))
     = [[PStr ''a@x'', PStr ''b@y'', PFile 1]]
   \<and> messages example_agent = [[PStr ''a@x'', PStr ''b@y'', PFile 1]]"
  by (simp add: sentMail_def remove_artifacts_def py_index_def os_remove_def py_del0_def
        example_agent_def stored_world_def smtp_SUCCESS_def)

text \<open>
  C5. On an empty batch the three accessors return \<open>None\<close>; when the front item is
  the triple of sender, recipient and data file that \<open>loadMessages\<close> builds from a
  two-element header, they return the sender, the one-element list of the recipient and
  the data file.
\<close>

theorem accessors_front_item:
  "(messages self = [] \<longrightarrow>
      getMailFrom self = Inr PNone \<and> getMailTo self = Inr PNone \<and> getMailData self = Inr PNone)
   \<and> (messages self = [sender, rcpt, PFile fp] # rest \<longrightarrow>
      getMailFrom self = Inr sender \<and> getMailTo self = Inr (PList [rcpt]) \<and>
      getMailData self = Inr (PFile fp))"
  by (simp add: getMailFrom_def getMailTo_def getMailData_def py_index_def)

theorem accessors_front_item_witness:
  "getMailFrom example_agent = Inr (PStr ''a@x'')
   \<and> getMailTo example_agent = Inr (PList [PStr ''b@y''])
   \<and> getMailData example_agent = Inr (PFile 1)
   \<and> getMailFrom \<lparr>messages = [], names = []\<rparr> = Inr PNone
   \<and> getMailTo \<lparr>messages = [], names = []\<rparr> = Inr PNone
   \<and> getMailData \<lparr>messages = [], names = []\<rparr> = Inr PNone"
  using accessors_front_item [of example_agent "PStr ''a@x''" "PStr ''b@y''" 1 "[]"]
        accessors_front_item [of "\<lparr>messages = [], names = []\<rparr>" PNone PNone 0 "[]"]
  by (simp add: example_agent_def)

text \<open>
  C10. On a drained agent \<open>sentMail\<close> raises IndexError, whatever the code, and
  leaves the agent and the environment as they were: no artifact is removed.
\<close>

theorem sentMail_drained_raises:
  "messages self = [] \<Longrightarrow> names self = [] \<Longrightarrow>
     sentMail SUCCESS code resp numOk addresses log self w = (Inl IndexError, self, w)"
  by (simp add: sentMail_def remove_artifacts_def py_index_def py_del0_def)

theorem sentMail_drained_raises_witness:
  "sentMail smtp_SUCCESS 250 ''OK'' 1 [''b@y''] () \<lparr>messages = [], names = []\<rparr> stored_world
     = (Inl IndexError, \<lparr>messages = [], names = []\<rparr>, stored_world)
   \<and> sentMail smtp_SUCCESS 550 ''no'' 0 [] () \<lparr>messages = [], names = []\<rparr> stored_world
     = (Inl IndexError, \<lparr>messages = [], names = []\<rparr>, stored_world)"
  using sentMail_drained_raises [of "\<lparr>messages = [], names = []\<rparr>" smtp_SUCCESS 250 "''OK''" 1
          "[''b@y'']" "()" stored_world]
        sentMail_drained_raises [of "\<lparr>messages = [], names = []\<rparr>" smtp_SUCCESS 550 "''no''" 0
          "[]" "()" stored_world]
  by simp


subsection \<open>Loading a batch\<close>

lemma loadMessages_loop_round:
  "(\<not> loadable P w message \<and>
    (\<exists>e w'. loadMessages_loop P (message # rest) self w = (Inl e, self, w') \<and> frame w w')) \<or>
   (loadable P w message \<and>
    (\<exists>item w'. frame w w' \<and> item_key_ok P w' item message \<and>
       loadMessages_loop P (message # rest) self w =
         loadMessages_loop P rest
           (self\<lparr>messages := messages self @ [item], names := names self @ [message]\<rparr>) w'))"
proof (cases "dir w (message @ ''-H'')")
  case None
  then have "loadMessages_loop P (message # rest) self w =
      (Inl (IOError (message @ ''-H'')), self, w)"
    by (simp add: builtin_open_def)
  moreover have "frame w w" by (simp add: frame_def)
  moreover from None have "\<not> loadable P w message" by (simp add: loadable_def)
  ultimately show ?thesis by blast
next
  case (Some i)
  note i = this
  let ?w0 = "w\<lparr>handles := (handles w)(next_handle w \<mapsto>
                  \<lparr>fname = message @ ''-H'', ino = i, fclosed = False, writable = False\<rparr>),
              next_handle := Suc (next_handle w)\<rparr>"
  let ?w1 = "file_close (next_handle w) ?w0"
  have o: "builtin_open (message @ ''-H'') w = (Inr (next_handle w), ?w0)"
    using Some by (simp add: builtin_open_def)
  have f1: "frame w ?w1"
    by (simp add: frame_def file_close_def)
  have pl: "pickle_load P (next_handle w) ?w0 =
      (case loads P (content w i) of None \<Rightarrow> Inl UnpicklingError | Some v \<Rightarrow> Inr v)"
    by (simp add: pickle_load_def file_read_def)
  show ?thesis
  proof (cases "loads P (content w i)")
    case None
    then have "loadMessages_loop P (message # rest) self w = (Inl UnpicklingError, self, ?w1)"
      by (simp add: o pl)
    moreover from None i have "\<not> loadable P w message" by (simp add: loadable_def)
    ultimately show ?thesis using f1 by blast
  next
    case (Some v)
    note v = this
    have plv: "pickle_load P (next_handle w) ?w0 = Inr v" by (simp add: pl v)
    show ?thesis
    proof (cases "dir w (message @ ''-D'')")
      case None
      then have "builtin_open (message @ ''-D'') ?w1 = (Inl (IOError (message @ ''-D'')), ?w1)"
        by (simp add: builtin_open_def file_close_def)
      then have "loadMessages_loop P (message # rest) self w =
          (Inl (IOError (message @ ''-D'')), self, ?w1)"
        by (simp add: o plv)
      moreover from None i v have "\<not> loadable P w message"
        by (simp add: loadable_def split: py.splits)
      ultimately show ?thesis using f1 by blast
    next
      case (Some j)
      note j = this
      let ?w2 = "?w1\<lparr>handles := (handles ?w1)(Suc (next_handle w) \<mapsto>
                  \<lparr>fname = message @ ''-D'', ino = j, fclosed = False, writable = False\<rparr>),
              next_handle := Suc (Suc (next_handle w))\<rparr>"
      have o2: "builtin_open (message @ ''-D'') ?w1 = (Inr (Suc (next_handle w)), ?w2)"
        using Some by (simp add: builtin_open_def file_close_def)
      have f2: "frame w ?w2"
        by (simp add: frame_def file_close_def)
      show ?thesis
      proof (cases "py_append v (PFile (Suc (next_handle w)))")
        case (Inl e)
        then have "loadMessages_loop P (message # rest) self w = (Inl e, self, ?w2)"
          by (simp add: o plv o2)
        moreover from Inl i v have "\<not> loadable P w message"
          by (simp add: loadable_def py_append_def split: py.splits)
        ultimately show ?thesis using f2 by blast
      next
        case (Inr item)
        then obtain xs where xs: "v = PList xs" "item = xs @ [PFile (Suc (next_handle w))]"
          by (auto simp add: py_append_def split: py.splits)
        from Inr have "loadMessages_loop P (message # rest) self w =
            loadMessages_loop P rest
              (self\<lparr>messages := messages self @ [item], names := names self @ [message]\<rparr>) ?w2"
          by (simp add: o plv o2)
        moreover from xs v have "item_key_ok P ?w2 item message"
          by (simp add: item_key_ok_def file_close_def)
        moreover from i v j xs have "loadable P w message"
          by (simp add: loadable_def)
        ultimately show ?thesis using f2 by blast
      qed
    qed
  qed
qed

lemma item_key_ok_frame:
  assumes f: "frame w w'" and k: "item_key_ok P w m n"
  shows "item_key_ok P w' m n"
proof -
  from k obtain fp d h where
    m: "m \<noteq> []" "last m = PFile fp" "0 < fp" "fp < next_handle w"
    and d: "handles w fp = Some d" "fname d = n @ ''-D''"
    and h: "handles w (fp - 1) = Some h" "fname h = n @ ''-H''" "fclosed h"
           "loads P (content w (ino h)) = Some (PList (butlast m))"
    by (auto simp add: item_key_ok_def split: py.splits option.splits)
  from f have fr: "\<forall>h f. h < next_handle w \<longrightarrow> handles w h = Some f \<longrightarrow>
             (\<exists>f'. handles w' h = Some f' \<and> fname f' = fname f \<and> ino f' = ino f \<and>
                   (fclosed f \<longrightarrow> fclosed f'))"
    by (simp add: frame_def)
  from fr [rule_format, OF m(4) d(1)] obtain d' where
    d': "handles w' fp = Some d'" "fname d' = fname d"
    by auto
  from m(4) have "fp - 1 < next_handle w" by simp
  from fr [rule_format, OF this h(1)] h(3) obtain h' where
    h': "handles w' (fp - 1) = Some h'" "fname h' = fname h" "ino h' = ino h" "fclosed h'"
    by auto
  from f have "content w' = content w" "next_handle w \<le> next_handle w'"
    by (simp_all add: frame_def)
  with m d d' h h' show ?thesis
    by (simp add: item_key_ok_def)
qed

lemma aligned_frame: "frame w w' \<Longrightarrow> aligned P w self \<Longrightarrow> aligned P w' self"
  unfolding aligned_def by (erule list_all2_mono) (rule item_key_ok_frame)

lemma loadable_frame:
  assumes "frame w w'"
  shows "loadable P w' = loadable P w"
proof (rule ext)
  fix n
  from assms have e: "dir w' = dir w" "content w' = content w"
    by (simp_all add: frame_def)
  show "loadable P w' n = loadable P w n"
    by (simp add: loadable_def e cong: option.case_cong py.case_cong)
qed

lemma loadMessages_loop_aligned:
  "aligned P w self \<Longrightarrow>
     aligned P (snd (snd (loadMessages_loop P paths self w)))
               (fst (snd (loadMessages_loop P paths self w)))"
proof (induction paths arbitrary: self w)
  case Nil
  then show ?case by simp
next
  case (Cons message rest)
  from loadMessages_loop_round [of P w message rest self]
  show ?case
  proof (elim disjE exE conjE)
    fix e w'
    assume "loadMessages_loop P (message # rest) self w = (Inl e, self, w')" "frame w w'"
    with Cons.prems show ?thesis by (simp add: aligned_frame)
  next
    fix item w'
    assume f: "frame w w'" and k: "item_key_ok P w' item message"
      and eq: "loadMessages_loop P (message # rest) self w =
         loadMessages_loop P rest
           (self\<lparr>messages := messages self @ [item], names := names self @ [message]\<rparr>) w'"
    from f Cons.prems have "aligned P w' self" by (rule aligned_frame)
    with k have "aligned P w'
        (self\<lparr>messages := messages self @ [item], names := names self @ [message]\<rparr>)"
      by (simp add: aligned_def list_all2_appendI)
    then show ?thesis unfolding eq by (rule Cons.IH)
  qed
qed

lemma loadMessages_loop_returns:
  "list_all (loadable P w) paths \<Longrightarrow> fst (loadMessages_loop P paths self w) = Inr ()"
proof (induction paths arbitrary: self w)
  case Nil
  then show ?case by simp
next
  case (Cons message rest)
  from Cons.prems have l: "loadable P w message" and r: "list_all (loadable P w) rest"
    by simp_all
  from loadMessages_loop_round [of P w message rest self] l
  obtain item w' where f: "frame w w'"
    and eq: "loadMessages_loop P (message # rest) self w =
         loadMessages_loop P rest
           (self\<lparr>messages := messages self @ [item], names := names self @ [message]\<rparr>) w'"
    by auto
  from f r have "list_all (loadable P w') rest" by (simp add: loadable_frame)
  then show ?case unfolding eq by (rule Cons.IH)
qed

lemma loadMessages_loop_names:
  "fst (loadMessages_loop P paths self w) = Inr () \<Longrightarrow>
     names (fst (snd (loadMessages_loop P paths self w))) = names self @ paths"
proof (induction paths arbitrary: self w)
  case Nil
  then show ?case by simp
next
  case (Cons message rest)
  from loadMessages_loop_round [of P w message rest self]
  show ?case
  proof (elim disjE exE conjE)
    fix e w'
    assume "loadMessages_loop P (message # rest) self w = (Inl e, self, w')"
    with Cons.prems show ?thesis by simp
  next
    fix item w'
    assume eq: "loadMessages_loop P (message # rest) self w =
         loadMessages_loop P rest
           (self\<lparr>messages := messages self @ [item], names := names self @ [message]\<rparr>) w'"
    with Cons.prems Cons.IH [of "self\<lparr>messages := messages self @ [item],
        names := names self @ [message]\<rparr>" w']
    show ?thesis by simp
  qed
qed

lemma loadMessages_loop_missing:
  "n \<in> set paths \<Longrightarrow> dir w (n @ ''-H'') = None \<Longrightarrow>
     \<exists>e. fst (loadMessages_loop P paths self w) = Inl e"
proof (induction paths arbitrary: self w)
  case Nil
  then show ?case by simp
next
  case (Cons message rest)
  show ?case
  proof (cases "n = message")
    case True
    with Cons.prems show ?thesis by (simp add: builtin_open_def)
  next
    case False
    with Cons.prems have mem: "n \<in> set rest" by simp
    from loadMessages_loop_round [of P w message rest self]
    show ?thesis
    proof (elim disjE exE conjE)
      fix e w'
      assume "loadMessages_loop P (message # rest) self w = (Inl e, self, w')"
      then show ?thesis by simp
    next
      fix item w'
      assume f: "frame w w'"
        and eq: "loadMessages_loop P (message # rest) self w =
           loadMessages_loop P rest
             (self\<lparr>messages := messages self @ [item], names := names self @ [message]\<rparr>) w'"
      from f Cons.prems(2) have "dir w' (n @ ''-H'') = None" by (simp add: frame_def)
      with mem show ?thesis unfolding eq by (rule Cons.IH)
    qed
  qed
qed

lemma loadMessages_single:
  assumes "dir w (k @ ''-H'') = Some i"
      and "dir w (k @ ''-D'') = Some j"
      and "loads P (content w i) = Some (PList xs)"
  shows "fst (loadMessages P [k] ag w) = Inr ()"
    and "messages (fst (snd (loadMessages P [k] ag w))) = [xs @ [PFile (Suc (next_handle w))]]"
    and "names (fst (snd (loadMessages P [k] ag w))) = [k]"
  using assms
  by (simp_all add: loadMessages_def builtin_open_def pickle_load_def file_read_def
        file_close_def py_append_def)

text \<open>
  The concrete agent and environment of the instances are what \<open>loadMessages\<close>
  makes of a disk that holds the one item \<open>q/0\<close>.
\<close>

lemma example_agent_loaded:
  "loadMessages line_pickle [''q/0''] \<lparr>messages = [], names = []\<rparr>
     (stored_world\<lparr>handles := Map.empty, next_handle := 0\<rparr>)
   = (Inr (), example_agent, stored_world)"
  by (simp add: loadMessages_def builtin_open_def pickle_load_def file_read_def file_close_def
        py_append_def stored_world_def example_agent_def line_pickle_def line_loads_def)

text \<open>
  C6. Whatever \<open>startMessage\<close> has written for a sender and a recipient, given that
  the pickle reads back the pair it has written, \<open>loadMessages\<close> over the new base key
  succeeds and the batch is that one item: the accessors return the sender and the
  recipient as they were given.
\<close>

theorem header_round_trip:
  assumes "loads P (dumps P (PList [PStr (orig u), PStr (dest u)])) =
             Some (PList [PStr (orig u), PStr (dest u)])"
      and "startMessage P self u w = (Inr s, w')"
      and "loadMessages P [base_key (queue (service self)) (queue_n w)] ag w' = (r, ag', w'')"
  shows "r = Inr ()
       \<and> messages ag' = [[PStr (orig u), PStr (dest u), PFile (Suc (next_handle w'))]]
       \<and> names ag' = [base_key (queue (service self)) (queue_n w)]
       \<and> getMailFrom ag' = Inr (PStr (orig u))
       \<and> getMailTo ag' = Inr (PList [PStr (dest u)])
       \<and> getMailData ag' = Inr (PFile (Suc (next_handle w')))"
proof -
  let ?k = "base_key (queue (service self)) (queue_n w)"
  from startMessage_Inr_D [OF assms(2)]
  have fresh: "dir w (?k @ ''-H'') = None" "dir w (?k @ ''-D'') = None"
    "length (dumps P (PList [PStr (orig u), PStr (dest u)])) \<le> free_space w"
    by simp_all
  from assms(2) have w': "w' = snd (startMessage P self u w)" by simp
  have h: "dir w' (?k @ ''-H'') = Some (next_inode w)"
    unfolding w' by (simp add: startMessage_success(2) [OF fresh])
  have d: "dir w' (?k @ ''-D'') = Some (Suc (next_inode w))"
    unfolding w' by (simp add: startMessage_success(2) [OF fresh])
  have c: "loads P (content w' (next_inode w)) = Some (PList [PStr (orig u), PStr (dest u)])"
    unfolding w' by (simp add: startMessage_success(3) [OF fresh] assms(1))
  from assms(3) have r: "r = fst (loadMessages P [?k] ag w')"
    and ag': "ag' = fst (snd (loadMessages P [?k] ag w'))"
    by simp_all
  have m: "messages ag' = [[PStr (orig u), PStr (dest u), PFile (Suc (next_handle w'))]]"
    unfolding ag' by (simp add: loadMessages_single(2) [OF h d c])
  have "r = Inr ()"
    unfolding r by (simp add: loadMessages_single(1) [OF h d c])
  moreover have "names ag' = [?k]"
    unfolding ag' by (simp add: loadMessages_single(3) [OF h d c])
  ultimately show ?thesis
    using m by (simp add: getMailFrom_def getMailTo_def getMailData_def py_index_def)
qed

lemma line_pickle_round_trip:
  "loads line_pickle (dumps line_pickle (PList [PStr ''a@x'', PStr ''b@y''])) =
     Some (PList [PStr ''a@x'', PStr ''b@y''])"
  by (simp add: line_pickle_def line_loads_def)

theorem header_round_trip_witness:
  "getMailFrom (fst (snd (loadMessages line_pickle
       [base_key (queue (service example_queuer)) 0] \<lparr>messages = [], names = []\<rparr>
       (snd (startMessage line_pickle example_queuer
               (example_user (IPv4Address ''127.0.0.1'' 1025)) (example_world 100))))))
     = Inr (PStr ''a@x'')
   \<and> getMailTo (fst (snd (loadMessages line_pickle
       [base_key (queue (service example_queuer)) 0] \<lparr>messages = [], names = []\<rparr>
       (snd (startMessage line_pickle example_queuer
               (example_user (IPv4Address ''127.0.0.1'' 1025)) (example_world 100))))))
     = Inr (PList [PStr ''b@y''])"
proof -
  let ?u = "example_user (IPv4Address ''127.0.0.1'' 1025)"
  let ?w = "example_world 100"
  let ?S = "startMessage line_pickle example_queuer ?u ?w"
  let ?L = "loadMessages line_pickle [base_key (queue (service example_queuer)) (queue_n ?w)]
              \<lparr>messages = [], names = []\<rparr> (snd ?S)"
  have rt: "loads line_pickle (dumps line_pickle (PList [PStr (orig ?u), PStr (dest ?u)])) =
             Some (PList [PStr (orig ?u), PStr (dest ?u)])"
    using line_pickle_round_trip by (simp add: example_user_def)
  have "fst ?S = Inr (FileMessage (Suc (next_handle ?w)))"
    by (rule startMessage_success(1))
       (simp_all add: example_world_def example_user_def line_pickle_def)
  then have sm: "?S = (Inr (FileMessage (Suc (next_handle ?w))), snd ?S)"
    by (simp add: prod_eq_iff)
  have ld: "?L = (fst ?L, fst (snd ?L), snd (snd ?L))" by simp
  from header_round_trip [OF rt sm ld] show ?thesis
    by (simp add: example_user_def example_world_def)
qed

text \<open>
  C7. When the queue has handed out an envelope file, it is open then and closed when
  \<open>startMessage\<close> is done, whether the header was written (the sink is returned) or
  the write failed for lack of space (the IOError comes out, the file closed). When
  the queue fails, no file object has been made.
\<close>

theorem startMessage_closes_envelope:
  "(createNewMessage (queue (service self)) w = (Inr (envelopeFile, smtpMessage), w1) \<longrightarrow>
      is_open w1 envelopeFile
      \<and> is_closed (snd (startMessage P self u w)) envelopeFile
      \<and> (free_space w < length (dumps P (PList [PStr (orig u), PStr (dest u)])) \<longrightarrow>
           fst (startMessage P self u w) =
             Inl (IOError (base_key (queue (service self)) (queue_n w) @ ''-H'')))
      \<and> (length (dumps P (PList [PStr (orig u), PStr (dest u)])) \<le> free_space w \<longrightarrow>
           fst (startMessage P self u w) = Inr smtpMessage))
   \<and> (createNewMessage (queue (service self)) w = (Inl e, w1) \<longrightarrow>
        startMessage P self u w = (Inl e, w))"
  by (auto simp add: startMessage_def createNewMessage_def create_file_def pickle_dump_def
        file_write_def log_msg_def file_close_def is_open_def is_closed_def Let_def
      split: if_splits)

theorem startMessage_closes_envelope_witness:
  "fst (startMessage line_pickle example_queuer (example_user (IPv4Address ''127.0.0.1'' 1025))
         (example_world 0))
     = Inl (IOError (base_key (queue (service example_queuer)) 0 @ ''-H''))
   \<and> is_closed (snd (startMessage line_pickle example_queuer
         (example_user (IPv4Address ''127.0.0.1'' 1025)) (example_world 0))) 0
   \<and> is_open (snd (createNewMessage (queue (service example_queuer)) (example_world 0))) 0"
proof -
  let ?C = "createNewMessage (queue (service example_queuer)) (example_world 0)"
  have c: "?C = (Inr (0, FileMessage 1), snd ?C)"
    by (simp add: createNewMessage_def create_file_def example_world_def Let_def)
  from startMessage_closes_envelope [of example_queuer "example_world 0" 0 "FileMessage 1"
      "snd ?C" line_pickle "example_user (IPv4Address ''127.0.0.1'' 1025)"] c
  show ?thesis
    by (simp add: example_world_def example_user_def line_pickle_def)
qed

text \<open>
  C8. After a delivery with a success code has returned, a batch that names the same
  base key cannot be loaded (the header is missing: IOError), and a second delivery
  with a success code by an agent that still holds the key raises OSError and changes
  nothing.
\<close>

theorem drain_not_repeatable:
  assumes "code \<in> SUCCESS"
      and "messages self = m # ms"
      and "names self = n # ns"
      and "sentMail SUCCESS code resp numOk addresses log self w = (Inr (), self', w')"
  shows "fst (loadMessages P (n # paths) ag w') = Inl (IOError (n @ ''-H''))
       \<and> (n \<in> set paths' \<longrightarrow> (\<exists>e. fst (loadMessages P paths' ag w') = Inl e))
       \<and> (code2 \<in> SUCCESS \<and> messages ag2 = m2 # ms2 \<and> names ag2 = n # ns2 \<longrightarrow>
            sentMail SUCCESS code2 resp2 numOk2 addresses2 log2 ag2 w' =
              (Inl (OSError (n @ ''-D'')), ag2, w'))"
proof -
  from assms(4) have gone: "dir w' (n @ ''-D'') = None \<and> dir w' (n @ ''-H'') = None"
    unfolding sentMail_success_code [OF assms(1,2,3)] by (auto split: if_splits)
  then have 1: "fst (loadMessages P (n # paths) ag w') = Inl (IOError (n @ ''-H''))"
    by (simp add: loadMessages_def builtin_open_def)
  have 2: "n \<in> set paths' \<longrightarrow> (\<exists>e. fst (loadMessages P paths' ag w') = Inl e)"
    using gone by (simp add: loadMessages_def loadMessages_loop_missing)
  have 3: "code2 \<in> SUCCESS \<and> messages ag2 = m2 # ms2 \<and> names ag2 = n # ns2 \<longrightarrow>
            sentMail SUCCESS code2 resp2 numOk2 addresses2 log2 ag2 w' =
              (Inl (OSError (n @ ''-D'')), ag2, w')"
    using gone by (simp add: sentMail_success_code)
  from 1 2 3 show ?thesis by simp
qed

theorem drain_not_repeatable_witness:
  "fst (loadMessages line_pickle [''q/0''] \<lparr>messages = [], names = []\<rparr>
         (snd (snd (sentMail smtp_SUCCESS 250 ''OK'' 1 [''b@y''] () example_agent stored_world))))
     = Inl (IOError ''q/0-H'')
   \<and> fst (sentMail smtp_SUCCESS 250 ''OK'' 1 [''b@y''] () example_agent
         (snd (snd (sentMail smtp_SUCCESS 250 ''OK'' 1 [''b@y''] () example_agent stored_world))))
     = Inl (OSError ''q/0-D'')"
proof -
  let ?X = "sentMail smtp_SUCCESS 250 ''OK'' 1 [''b@y''] () example_agent stored_world"
  have c: "(250::int) \<in> smtp_SUCCESS" by (simp add: smtp_SUCCESS_def)
  have m: "messages example_agent = [PStr ''a@x'', PStr ''b@y'', PFile 1] # []"
    by (simp add: example_agent_def)
  have n: "names example_agent = ''q/0'' # []" by (simp add: example_agent_def)
  have "fst ?X = Inr ()"
    by (simp add: sentMail_success_code [OF c m n] stored_world_def)
  then have x: "?X = (Inr (), fst (snd ?X), snd (snd ?X))" by (simp add: prod_eq_iff)
  from drain_not_repeatable [OF c m n x, of line_pickle "[]" "\<lparr>messages = [], names = []\<rparr>"
      "[]" 250 example_agent "[PStr ''a@x'', PStr ''b@y'', PFile 1]" "[]" "[]"
      "''OK''" 1 "[''b@y'']" "()"] c m n
  show ?thesis by simp
qed

lemma item_key_ok_dir [simp]: "item_key_ok P (w\<lparr>dir := d\<rparr>) = item_key_ok P w"
  by (simp add: fun_eq_iff item_key_ok_def cong: py.case_cong option.case_cong)

lemma aligned_dir [simp]: "aligned P (w\<lparr>dir := d\<rparr>) self = aligned P w self"
  by (simp add: aligned_def)

lemma aligned_Nil: "messages self = [] \<Longrightarrow> aligned P w self = (names self = [])"
  by (simp add: aligned_def)

lemma sentMail_aligned:
  assumes "aligned P w self"
  shows "aligned P (snd (snd (sentMail SUCCESS code resp numOk addresses log self w)))
                   (fst (snd (sentMail SUCCESS code resp numOk addresses log self w)))
       \<and> (fst (sentMail SUCCESS code resp numOk addresses log self w) = Inr () \<longrightarrow>
            messages (fst (snd (sentMail SUCCESS code resp numOk addresses log self w)))
              = tl (messages self) \<and>
            names (fst (snd (sentMail SUCCESS code resp numOk addresses log self w)))
              = tl (names self))
       \<and> (fst (sentMail SUCCESS code resp numOk addresses log self w) \<noteq> Inr () \<longrightarrow>
            fst (snd (sentMail SUCCESS code resp numOk addresses log self w)) = self)
       \<and> (messages self \<noteq> [] \<and>
          (code \<notin> SUCCESS \<or>
           dir w (hd (names self) @ ''-D'') \<noteq> None \<and> dir w (hd (names self) @ ''-H'') \<noteq> None) \<longrightarrow>
            fst (sentMail SUCCESS code resp numOk addresses log self w) = Inr ())"
proof (cases "messages self")
  case Nil
  with assms have "names self = []" by (simp add: aligned_Nil)
  with Nil assms show ?thesis
    by (simp add: sentMail_def remove_artifacts_def py_index_def py_del0_def)
next
  case (Cons m ms)
  with assms obtain n ns where n: "names self = n # ns" and t: "list_all2 (item_key_ok P w) ms ns"
    by (auto simp add: aligned_def list_all2_Cons1)
  from t have a: "\<And>d. aligned P (w\<lparr>dir := d\<rparr>) (self\<lparr>messages := ms, names := ns\<rparr>)"
    by (simp add: aligned_def)
  from t have a': "aligned P w (self\<lparr>messages := ms, names := ns\<rparr>)"
    by (simp add: aligned_def)
  show ?thesis
  proof (cases "code \<in> SUCCESS")
    case True
    show ?thesis
      unfolding sentMail_success_code [OF True Cons n]
      using assms a Cons n True by simp
  next
    case False
    show ?thesis
      unfolding sentMail_failure_code [OF False Cons n]
      using a' Cons n by simp
  qed
qed

text \<open>
  C9, as the code has it. \<open>loadMessages\<close> leaves the agent aligned, whether it
  returns or raises; it returns when every base key given can be loaded, and when it
  returns \<open>names\<close> are the base keys in the order given. An aligned agent has as
  many items as names. Every call of \<open>sentMail\<close> keeps an aligned agent aligned: a
  call that returns has removed the front element of both collections, and on a
  non-empty batch the call returns when the code is not a success code or both
  artifacts of the front item exist; a call that raises leaves both collections as
  they were.
\<close>

theorem batch_stays_aligned:
  "aligned P (snd (snd (loadMessages P paths self w))) (fst (snd (loadMessages P paths self w)))
   \<and> (list_all (loadable P w) paths \<longrightarrow> fst (loadMessages P paths self w) = Inr ())
   \<and> (fst (loadMessages P paths self w) = Inr () \<longrightarrow>
        names (fst (snd (loadMessages P paths self w))) = paths)
   \<and> (aligned P w self \<longrightarrow> length (messages self) = length (names self))
   \<and> (aligned P w self \<longrightarrow>
        aligned P (snd (snd (sentMail SUCCESS code resp numOk addresses log self w)))
                  (fst (snd (sentMail SUCCESS code resp numOk addresses log self w))))
   \<and> (aligned P w self \<and> fst (sentMail SUCCESS code resp numOk addresses log self w) = Inr () \<longrightarrow>
        messages (fst (snd (sentMail SUCCESS code resp numOk addresses log self w)))
          = tl (messages self) \<and>
        names (fst (snd (sentMail SUCCESS code resp numOk addresses log self w)))
          = tl (names self))
   \<and> (aligned P w self \<and> fst (sentMail SUCCESS code resp numOk addresses log self w) \<noteq> Inr () \<longrightarrow>
        fst (snd (sentMail SUCCESS code resp numOk addresses log self w)) = self)
   \<and> (aligned P w self \<and> messages self \<noteq> [] \<and>
      (code \<notin> SUCCESS \<or>
       dir w (hd (names self) @ ''-D'') \<noteq> None \<and> dir w (hd (names self) @ ''-H'') \<noteq> None) \<longrightarrow>
        fst (sentMail SUCCESS code resp numOk addresses log self w) = Inr ())"
proof -
  have e: "aligned P w (self\<lparr>messages := [], names := []\<rparr>)" by (simp add: aligned_def)
  have 1: "aligned P (snd (snd (loadMessages P paths self w)))
                     (fst (snd (loadMessages P paths self w)))"
    unfolding loadMessages_def using e by (rule loadMessages_loop_aligned)
  have 2: "fst (loadMessages P paths self w) = Inr () \<longrightarrow>
        names (fst (snd (loadMessages P paths self w))) = paths"
    unfolding loadMessages_def
    using loadMessages_loop_names [of P paths "self\<lparr>messages := [], names := []\<rparr>" w] by simp
  have 3: "aligned P w self \<longrightarrow> length (messages self) = length (names self)"
    by (auto simp add: aligned_def dest: list_all2_lengthD)
  have 4: "list_all (loadable P w) paths \<longrightarrow> fst (loadMessages P paths self w) = Inr ()"
    by (simp add: loadMessages_def loadMessages_loop_returns)
  from 1 2 3 4 sentMail_aligned [of P w self SUCCESS code resp numOk addresses log]
  show ?thesis by blast
qed

theorem batch_stays_aligned_witness:
  "aligned line_pickle stored_world example_agent
   \<and> fst (sentMail smtp_SUCCESS 250 ''OK'' 1 [''b@y''] () example_agent stored_world) = Inr ()
   \<and> names (fst (snd (sentMail smtp_SUCCESS 250 ''OK'' 1 [''b@y''] () example_agent stored_world)))
       = []
   \<and> messages (fst (snd (sentMail smtp_SUCCESS 250 ''OK'' 1 [''b@y''] () example_agent stored_world)))
       = []
   \<and> fst (loadMessages line_pickle [''q/0''] example_agent stored_world) = Inr ()
   \<and> names (fst (snd (loadMessages line_pickle [''q/0''] example_agent stored_world))) = [''q/0'']
   \<and> aligned line_pickle
       (snd (snd (loadMessages line_pickle [''q/0''] example_agent stored_world)))
       (fst (snd (loadMessages line_pickle [''q/0''] example_agent stored_world)))"
proof -
  have a: "aligned line_pickle stored_world example_agent"
    by (simp add: aligned_def item_key_ok_def stored_world_def example_agent_def
          line_pickle_def line_loads_def)
  have l: "list_all (loadable line_pickle stored_world) [''q/0'']"
    by (simp add: loadable_def stored_world_def line_pickle_def line_loads_def)
  have d: "messages example_agent \<noteq> [] \<and> hd (names example_agent) = ''q/0''
      \<and> tl (names example_agent) = [] \<and> tl (messages example_agent) = []
      \<and> dir stored_world ''q/0-D'' \<noteq> None \<and> dir stored_world ''q/0-H'' \<noteq> None"
    by (simp add: example_agent_def stored_world_def)
  from batch_stays_aligned [of line_pickle "[''q/0'']" example_agent stored_world smtp_SUCCESS
      250 "''OK''" 1 "[''b@y'']" "()"] a l d
  show ?thesis by simp
qed

text \<open>
  C9 as stated fails in its last part: on an aligned agent whose front item has lost
  its artifacts to another delivery, the call of \<open>sentMail\<close> with a success code
  raises and removes the front element of neither collection. The agent is aligned
  before and after.
\<close>

theorem sentMail_removes_neither_counterexample:
  "aligned line_pickle
     (snd (snd (sentMail smtp_SUCCESS 250 ''OK'' 1 [''b@y''] () example_agent stored_world)))
     example_agent
   \<and> sentMail smtp_SUCCESS 250 ''OK'' 1 [''b@y''] () example_agent
       (snd (snd (sentMail smtp_SUCCESS 250 ''OK'' 1 [''b@y''] () example_agent stored_world)))
     = (Inl (OSError ''q/0-D''), example_agent,
        snd (snd (sentMail smtp_SUCCESS 250 ''OK'' 1 [''b@y''] () example_agent stored_world)))
   \<and> names example_agent = [''q/0'']
   \<and> tl (names example_agent) = []"
  by (simp add: aligned_def item_key_ok_def sentMail_def remove_artifacts_def py_index_def
        os_remove_def py_del0_def example_agent_def stored_world_def smtp_SUCCESS_def
        line_pickle_def line_loads_def)

end
